theory Spec2Isabelle
  imports Main
begin

section \<open>Data model of TimelineDropsChart.tsx\<close>

text \<open>
  The only uncaught JavaScript exception the file can produce is a \<open>TypeError\<close>: reading a
  property of \<open>undefined\<close> or \<open>null\<close>.
\<close>

datatype js_error = TypeError

text \<open>
  An entry of the imported \<open>playerDropCategories\<close> table. The table itself is not part of
  the file, so it is a parameter: \<open>reg catName\<close> is the entry the table holds for
  \<open>catName\<close>, \<open>None\<close> when it holds none.
\<close>

record category_meta =
  label :: string
  color :: string
  border :: string

type_synonym registry = "string \<Rightarrow> category_meta option"

text \<open>
  The component reads the table with a plain bracket lookup, without an own-property
  check. The table is taken to be an ordinary object, so for a name it has no entry for
  the lookup still finds the member that \<open>Object.prototype\<close> supplies under that name, if
  there is one, and is \<open>undefined\<close> only otherwise. An inherited member is a function or
  an object: its \<open>color\<close>, \<open>border\<close> and \<open>label\<close> are \<open>undefined\<close>, and reading them does not
  raise.
\<close>

definition object_prototype_names :: "string list" where
  "object_prototype_names =
     [''constructor'', ''hasOwnProperty'', ''isPrototypeOf'', ''propertyIsEnumerable'',
      ''toLocaleString'', ''toString'', ''valueOf'', ''__proto__'', ''__defineGetter__'',
      ''__defineSetter__'', ''__lookupGetter__'', ''__lookupSetter__'']"

datatype table_lookup = Undefined | Entry category_meta | Inherited

definition bracket_lookup :: "registry \<Rightarrow> string \<Rightarrow> table_lookup" where
  "bracket_lookup reg catName =
     (case reg catName of
        Some m \<Rightarrow> Entry m
      | None \<Rightarrow> if catName \<in> set object_prototype_names then Inherited else Undefined)"

text \<open>
  \<open>TimelineDropsChartData\<close>. The element type of \<open>log\<close> (\<open>TimelineDropsDatum\<close>) is imported and
  stays a type parameter. React compares the chart data by reference (\<open>Object.is\<close>) in the
  dependency array; \<open>ident\<close> stands for that reference. Dates are milliseconds.
\<close>

record 'd TimelineDropsChartData =
  ident :: nat
  selectedPeriod :: string
  startDate :: int
  endDate :: int
  maxDrops :: int
  categoriesSorted :: "string list"
  log :: "'d list"

text \<open>
  What a render of the component reads from outside: the props of \<open>TimelineDropsChartProps\<close>
  and the value of the \<open>useIsDarkMode\<close> hook. Sizes are whole pixels; \<open>NaN\<close> is not modelled.
\<close>

record 'd inputs =
  chartData :: "'d TimelineDropsChartData"
  width :: int
  height :: int
  isDarkMode :: bool

record margins_t =
  margin_top :: int
  margin_right :: int
  margin_bottom :: int
  margin_left :: int
  margin_axis :: int

definition margins :: margins_t where
  "margins = \<lparr>margin_top = 8, margin_right = 8, margin_bottom = 24, margin_left = 42,
     margin_axis = 1\<rparr>"

subsection \<open>The legend: \<open>ChartLabels\<close>\<close>

text \<open>
  One rendered legend row: the React key, the swatch's two style colours, the text of the
  label span (the label followed by a colon) and the value slot, an empty span whose
  \<open>data-category\<close> attribute is the category identifier.
\<close>

record legend_row =
  row_key :: string
  backgroundColor :: string
  borderColor :: string
  label_text :: string
  data_category :: string
  slot_text :: string

text \<open>
  The callback of \<open>categoriesReversed.map\<close>, applied from the first element on. Reading
  \<open>.color\<close> of an \<open>undefined\<close> lookup raises. For an inherited member the three reads give
  \<open>undefined\<close>: React sets no colour (the style value stays the empty string) and renders
  nothing for the label, so the row is a blank swatch followed by a colon.
\<close>

fun legend_rows :: "registry \<Rightarrow> string list \<Rightarrow> js_error + legend_row list" where
  "legend_rows reg [] = Inr []"
| "legend_rows reg (catName # rest) =
     (case bracket_lookup reg catName of
        Undefined \<Rightarrow> Inl TypeError
      | Entry m \<Rightarrow>
          (case legend_rows reg rest of
             Inl e \<Rightarrow> Inl e
           | Inr rows \<Rightarrow>
               Inr (\<lparr>row_key = catName, backgroundColor = color m, borderColor = border m,
                      label_text = label m @ '':'', data_category = catName,
                      slot_text = ''''\<rparr> # rows))
      | Inherited \<Rightarrow>
          (case legend_rows reg rest of
             Inl e \<Rightarrow> Inl e
           | Inr rows \<Rightarrow>
               Inr (\<lparr>row_key = catName, backgroundColor = '''', borderColor = '''',
                      label_text = '':'', data_category = catName,
                      slot_text = ''''\<rparr> # rows)))"

definition ChartLabels :: "registry \<Rightarrow> string list \<Rightarrow> js_error + legend_row list" where
  "ChartLabels reg categories =
     (let categoriesReversed = rev categories in legend_rows reg categoriesReversed)"

text \<open>
  The same component over an explicit store of arrays, to speak about the caller's array:
  a reference is an index into the store, \<open>slice()\<close> allocates a copy at a fresh reference,
  and \<open>reverse()\<close> reverses the array it is called on in place and returns the same reference.
\<close>

type_synonym array_store = "string list list"

definition array_slice :: "nat \<Rightarrow> array_store \<Rightarrow> nat \<times> array_store" where
  "array_slice a s = (length s, s @ [s ! a])"

definition array_reverse :: "nat \<Rightarrow> array_store \<Rightarrow> nat \<times> array_store" where
  "array_reverse a s = (a, s[a := rev (s ! a)])"

definition ChartLabels_store ::
  "registry \<Rightarrow> nat \<Rightarrow> array_store \<Rightarrow> (js_error + legend_row list) \<times> array_store" where
  "ChartLabels_store reg categories s =
     (let (copy, s1) = array_slice categories s;
          (categoriesReversed, s2) = array_reverse copy s1
      in (legend_rows reg (s2 ! categoriesReversed), s2))"

subsection \<open>The drawing routine, seen from the component\<close>

datatype dom_node = LegendDiv | SvgElement | CanvasElement

text \<open>
  The argument object of \<open>drawDropsTimeline\<close>. The \<open>setRenderError\<close> callback it also
  carries is represented in the routine's outcome below.
\<close>

record 'd draw_request =
  req_legendRef :: dom_node
  req_svgRef :: dom_node
  req_canvasRef :: dom_node
  req_size :: "int \<times> int"
  req_margins :: margins_t
  req_isDarkMode :: bool
  req_data :: "'d TimelineDropsChartData"

text \<open>
  A thrown value, as the catch block sees it: \<open>null\<close> or \<open>undefined\<close> (reading \<open>.message\<close>
  of it raises), or a value whose \<open>.message\<close> is a string or is missing.
\<close>

datatype thrown = ThrownNullish | ThrownValue "string option"

text \<open>
  One call of the routine either returns or throws; before that it may have called
  \<open>setRenderError\<close> with the listed messages. The routine is external, so it is a
  parameter: its behaviour at its \<open>k\<close>-th call, given the request.
\<close>

datatype draw_outcome = Returns "string list" | Throws "string list" thrown

type_synonym 'd draw_routine = "nat \<Rightarrow> 'd draw_request \<Rightarrow> draw_outcome"

subsection \<open>Rendered output\<close>

record legend_attrs =
  legend_zIndex :: int
  legend_top :: int
  legend_opacity :: int
  legend_children :: "legend_row list"

record svg_attrs =
  svg_width :: int
  svg_height :: int
  svg_zIndex :: int
  svg_top :: int
  svg_left :: int

record canvas_attrs =
  canvas_width :: int
  canvas_height :: int
  canvas_zIndex :: int
  canvas_top :: int
  canvas_left :: int

text \<open>
  What the component returns: \<open>null\<close>, the error panel (its text and the label of its
  button), or the three stacked surfaces.
\<close>

datatype vnode = Null | ErrorPanel string string | Chart legend_attrs svg_attrs canvas_attrs

subsection \<open>Component instance\<close>

text \<open>
  The two \<open>useState\<close> cells, the three refs, the dependency values the effect last ran
  with (\<open>None\<close> before the first run; the ref objects themselves never change), what is
  mounted, and a log of the calls made to the drawing routine.
\<close>

record 'd inst =
  renderError :: string
  errorRetry :: nat
  legendRef :: "dom_node option"
  svgRef :: "dom_node option"
  canvasRef :: "dom_node option"
  lastDeps :: "('d inputs \<times> string) option"
  mounted :: vnode
  drawCalls :: "'d draw_request list"

definition initial :: "'d inst" where
  "initial = \<lparr>renderError = '''', errorRetry = 0, legendRef = None, svgRef = None,
     canvasRef = None, lastDeps = None, mounted = Null, drawCalls = []\<rparr>"

text \<open>
  Decimal digits of a number, as a template literal prints a non-negative integer (below
  \<open>10^21\<close>, where JavaScript turns to exponent notation). The retry count starts at zero
  and only ever grows by one per click, so it is a natural number here.
\<close>

fun show_nat :: "nat \<Rightarrow> string" where
  "show_nat n =
     (if n < 10 then [''0123456789'' ! n]
      else show_nat (n div 10) @ [''0123456789'' ! (n mod 10)])"

declare show_nat.simps [simp del]

definition retry_label :: "nat \<Rightarrow> string" where
  "retry_label n = ''Retry'' @ (if n \<noteq> 0 then '' ('' @ show_nat n @ '')'' else '''')"

text \<open>
  Reading a decimal numeral, written without reference to \<open>show_nat\<close>: the value of a
  digit, the value of a digit string (most significant digit first), and what it means
  for a string to be the decimal numeral of a number: it is not empty, it has no leading
  zero unless it is \<open>0\<close> itself, and its value is the number.
\<close>

definition digit_value :: "char \<Rightarrow> nat option" where
  "digit_value =
     map_of [(CHR ''0'', 0), (CHR ''1'', 1), (CHR ''2'', 2), (CHR ''3'', 3), (CHR ''4'', 4),
             (CHR ''5'', 5), (CHR ''6'', 6), (CHR ''7'', 7), (CHR ''8'', 8), (CHR ''9'', 9)]"

fun digits_value :: "nat \<Rightarrow> string \<Rightarrow> nat option" where
  "digits_value acc [] = Some acc"
| "digits_value acc (c # cs) =
     (case digit_value c of
        None \<Rightarrow> None
      | Some d \<Rightarrow> digits_value (10 * acc + d) cs)"

definition decimal_numeral_of :: "string \<Rightarrow> nat \<Rightarrow> bool" where
  "decimal_numeral_of ds n \<longleftrightarrow>
     ds \<noteq> [] \<and> (ds = ''0'' \<or> hd ds \<noteq> CHR ''0'') \<and> digits_value 0 ds = Some n"

text \<open>
  The body of \<open>TimelineDropsChart\<close> after the hooks (lines 89 to 144), with the legend's
  \<open>ChartLabels\<close> child rendered in place: an exception of the child leaves nothing rendered.
\<close>

definition TimelineDropsChart :: "registry \<Rightarrow> 'd inputs \<Rightarrow> 'd inst \<Rightarrow> js_error + vnode" where
  "TimelineDropsChart reg p st =
     (if width p = 0 \<or> height p = 0 then Inr Null
      else if renderError st \<noteq> '''' then
        Inr (ErrorPanel (''Render Error: '' @ renderError st) (retry_label (errorRetry st)))
      else
        (case ChartLabels reg (categoriesSorted (chartData p)) of
           Inl e \<Rightarrow> Inl e
         | Inr rows \<Rightarrow>
             Inr (Chart
               \<lparr>legend_zIndex = 2, legend_top = 12, legend_opacity = 0, legend_children = rows\<rparr>
               \<lparr>svg_width = width p, svg_height = height p, svg_zIndex = 1, svg_top = 0,
                 svg_left = 0\<rparr>
               \<lparr>canvas_width = width p - margin_left margins - margin_right margins,
                 canvas_height = height p - margin_top margins - margin_bottom margins,
                 canvas_zIndex = 0, canvas_top = margin_top margins,
                 canvas_left = margin_left margins\<rparr>)))"

text \<open>React attaches the refs to the elements it mounted and clears them otherwise.\<close>

definition commit :: "vnode \<Rightarrow> 'd inst \<Rightarrow> 'd inst" where
  "commit v st =
     (case v of
        Chart lg sv cv \<Rightarrow>
          st\<lparr>legendRef := Some LegendDiv, svgRef := Some SvgElement,
             canvasRef := Some CanvasElement, mounted := v\<rparr>
      | _ \<Rightarrow> st\<lparr>legendRef := None, svgRef := None, canvasRef := None, mounted := v\<rparr>)"

definition setRenderError :: "string \<Rightarrow> 'd inst \<Rightarrow> 'd inst" where
  "setRenderError msg st = st\<lparr>renderError := msg\<rparr>"

definition setErrorRetry :: "nat \<Rightarrow> 'd inst \<Rightarrow> 'd inst" where
  "setErrorRetry n st = st\<lparr>errorRetry := n\<rparr>"

text \<open>
  The effect callback (lines 64 to 86). \<open>chartData\<close> is a required prop, so its guard never
  fires. State updates are applied in call order, which is the state the next render sees.
\<close>

definition redraw_effect :: "'d draw_routine \<Rightarrow> 'd inputs \<Rightarrow> 'd inst \<Rightarrow> js_error + 'd inst" where
  "redraw_effect drw p st =
     (case (legendRef st, svgRef st, canvasRef st) of
        (Some lg, Some sv, Some cv) \<Rightarrow>
          if width p = 0 \<or> height p = 0 then Inr st
          else if length (log (chartData p)) = 0 then Inr st
          else
            (let req = \<lparr>req_legendRef = lg, req_svgRef = sv, req_canvasRef = cv,
                         req_size = (width p, height p), req_margins = margins,
                         req_isDarkMode = isDarkMode p, req_data = chartData p\<rparr>;
                 st1 = st\<lparr>drawCalls := drawCalls st @ [req]\<rparr>
             in case drw (length (drawCalls st)) req of
                  Returns reported \<Rightarrow>
                    Inr (setRenderError '''' (setErrorRetry 0 (fold setRenderError reported st1)))
                | Throws reported err \<Rightarrow>
                    (case err of
                       ThrownNullish \<Rightarrow> Inl TypeError
                     | ThrownValue message \<Rightarrow>
                         Inr (setRenderError
                                (case message of None \<Rightarrow> ''Unknown error.'' | Some m \<Rightarrow> m)
                                (fold setRenderError reported st1))))
      | _ \<Rightarrow> Inr st)"

text \<open>
  One render pass: render, commit, then the effect if a dependency differs from the last
  pass (always on the first).
\<close>

definition render_pass ::
  "registry \<Rightarrow> 'd draw_routine \<Rightarrow> 'd inputs \<Rightarrow> 'd inst \<Rightarrow> js_error + 'd inst" where
  "render_pass reg drw p st =
     (case TimelineDropsChart reg p st of
        Inl e \<Rightarrow> Inl e
      | Inr v \<Rightarrow>
          (let st1 = commit v st; deps = (p, renderError st)
           in if lastDeps st1 = Some deps then Inr st1
              else redraw_effect drw p (st1\<lparr>lastDeps := Some deps\<rparr>)))"

text \<open>
  React renders again as long as a pass changed a state cell. Not returning is \<open>None\<close>.
\<close>

partial_function (option) settle ::
  "registry \<Rightarrow> 'd draw_routine \<Rightarrow> 'd inputs \<Rightarrow> 'd inst \<Rightarrow> (js_error + 'd inst) option" where
  "settle reg drw p st =
     (case render_pass reg drw p st of
        Inl e \<Rightarrow> Some (Inl e)
      | Inr st' \<Rightarrow>
          if renderError st' = renderError st \<and> errorRetry st' = errorRetry st
          then Some (Inr st')
          else settle reg drw p st')"

declare settle.simps [code]

text \<open>
  What happens to an instance: it is rendered with (new or old) inputs, or the user
  clicks the retry button, which exists only while the error panel is mounted.
\<close>

datatype 'd event = Render "'d inputs" | ClickRetry

definition step ::
  "registry \<Rightarrow> 'd draw_routine \<Rightarrow> 'd event \<Rightarrow> 'd inst \<Rightarrow> (js_error + 'd inst) option" where
  "step reg drw ev st =
     (case ev of
        Render p \<Rightarrow> settle reg drw p st
      | ClickRetry \<Rightarrow>
          (case (mounted st, lastDeps st) of
             (ErrorPanel txt btn, Some (p, e)) \<Rightarrow>
               settle reg drw p (setRenderError '''' (setErrorRetry (errorRetry st + 1) st))
           | _ \<Rightarrow> Some (Inr st)))"

fun run ::
  "registry \<Rightarrow> 'd draw_routine \<Rightarrow> 'd event list \<Rightarrow> 'd inst \<Rightarrow> (js_error + 'd inst) option" where
  "run reg drw [] st = Some (Inr st)"
| "run reg drw (ev # evs) st =
     (case step reg drw ev st of
        None \<Rightarrow> None
      | Some (Inl e) \<Rightarrow> Some (Inl e)
      | Some (Inr st') \<Rightarrow> run reg drw evs st')"

subsection \<open>Notions for stating results\<close>

text \<open>
  The request the effect assembles once the three surfaces are mounted, the message the
  catch block stores for a thrown value, and the calls to the drawing routine that a
  finished run has logged (none when the run ended in an uncaught exception).
\<close>

definition request_of :: "'d inputs \<Rightarrow> 'd draw_request" where
  "request_of p = \<lparr>req_legendRef = LegendDiv, req_svgRef = SvgElement,
     req_canvasRef = CanvasElement, req_size = (width p, height p), req_margins = margins,
     req_isDarkMode = isDarkMode p, req_data = chartData p\<rparr>"

definition caught_message :: "string option \<Rightarrow> string" where
  "caught_message message = (case message of None \<Rightarrow> ''Unknown error.'' | Some m \<Rightarrow> m)"

definition result_draws :: "(js_error + 'd inst) option \<Rightarrow> 'd draw_request list" where
  "result_draws r = (case r of Some (Inr st) \<Rightarrow> drawCalls st | _ \<Rightarrow> [])"

subsection \<open>Sample values\<close>

text \<open>
  A sample of the category table, a chart data object, inputs of a 300 by 200 viewport,
  and behaviours of the drawing routine: it always returns; it always throws an error
  with the message \<open>X\<close>; it does so except at its third call, where it returns; it
  always throws an error with the empty message (as \<open>new Error()\<close> has); it always throws
  \<open>null\<close>.
\<close>

definition sample_registry :: registry where
  "sample_registry c =
     (if c = ''afk'' then Some \<lparr>label = ''AFK'', color = ''#111'', border = ''#222''\<rparr>
      else if c = ''ban'' then Some \<lparr>label = ''Ban'', color = ''#333'', border = ''#444''\<rparr>
      else if c = ''idle'' then Some \<lparr>label = ''Idle'', color = ''#555'', border = ''#666''\<rparr>
      else None)"

definition sample_data :: "nat TimelineDropsChartData" where
  "sample_data = \<lparr>ident = 0, selectedPeriod = ''day'', startDate = 0, endDate = 86400000,
     maxDrops = 5, categoriesSorted = [''afk'', ''ban'', ''idle''], log = [1]\<rparr>"

definition sample_inputs :: "nat inputs" where
  "sample_inputs = \<lparr>chartData = sample_data, width = 300, height = 200, isDarkMode = False\<rparr>"

definition draw_returns :: "nat draw_routine" where
  "draw_returns k req = Returns []"

definition draw_throws_X :: "nat draw_routine" where
  "draw_throws_X k req = Throws [] (ThrownValue (Some ''X''))"

definition draw_recovers_once :: "nat draw_routine" where
  "draw_recovers_once k req = (if k = 2 then Returns [] else Throws [] (ThrownValue (Some ''X'')))"

definition draw_throws_empty :: "nat draw_routine" where
  "draw_throws_empty k req = Throws [] (ThrownValue (Some []))"

definition draw_throws_null :: "nat draw_routine" where
  "draw_throws_null k req = Throws [] ThrownNullish"

section \<open>The legend\<close>

lemma legend_rows_registered:
  "\<forall>c\<in>set cats. reg c \<noteq> None \<Longrightarrow>
   legend_rows reg cats =
     Inr (map (\<lambda>c. \<lparr>row_key = c, backgroundColor = color (the (reg c)),
                     borderColor = border (the (reg c)), label_text = label (the (reg c)) @ '':'',
                     data_category = c, slot_text = ''''\<rparr>) cats)"
  by (induction cats) (auto simp: bracket_lookup_def)

lemma ChartLabels_registered:
  "\<forall>c\<in>set cats. reg c \<noteq> None \<Longrightarrow>
   ChartLabels reg cats =
     Inr (map (\<lambda>c. \<lparr>row_key = c, backgroundColor = color (the (reg c)),
                     borderColor = border (the (reg c)), label_text = label (the (reg c)) @ '':'',
                     data_category = c, slot_text = ''''\<rparr>) (rev cats))"
  by (simp add: ChartLabels_def legend_rows_registered)

lemma legend_rows_unknown:
  "c \<in> set cats \<Longrightarrow> reg c = None \<Longrightarrow> c \<notin> set object_prototype_names \<Longrightarrow>
   legend_rows reg cats = Inl TypeError"
  by (induction cats)
    (auto simp: bracket_lookup_def split: option.splits sum.splits table_lookup.splits
      intro: js_error.exhaust)

text \<open>
  C7. When every category of the list has a table entry, the legend is one row per
  category, in the reverse of the given order; each row carries the category's colour,
  border and label and an empty value slot whose \<open>data-category\<close> is the category
  identifier. The empty list gives no rows.
\<close>

theorem legend_reverse_order:
  assumes "\<forall>c\<in>set cats. reg c \<noteq> None"
  shows "ChartLabels reg cats =
           Inr (map (\<lambda>c. \<lparr>row_key = c, backgroundColor = color (the (reg c)),
                           borderColor = border (the (reg c)),
                           label_text = label (the (reg c)) @ '':'',
                           data_category = c, slot_text = ''''\<rparr>) (rev cats))
         \<and> ChartLabels reg [] = Inr []"
  using assms by (simp add: ChartLabels_registered)

theorem legend_reverse_order_witness:
  "ChartLabels sample_registry [''afk'', ''ban'', ''idle''] =
     Inr [\<lparr>row_key = ''idle'', backgroundColor = ''#555'', borderColor = ''#666'',
            label_text = ''Idle:'', data_category = ''idle'', slot_text = ''''\<rparr>,
          \<lparr>row_key = ''ban'', backgroundColor = ''#333'', borderColor = ''#444'',
            label_text = ''Ban:'', data_category = ''ban'', slot_text = ''''\<rparr>,
          \<lparr>row_key = ''afk'', backgroundColor = ''#111'', borderColor = ''#222'',
            label_text = ''AFK:'', data_category = ''afk'', slot_text = ''''\<rparr>]"
  using legend_reverse_order [of "[''afk'', ''ban'', ''idle'']" sample_registry]
  by (simp add: sample_registry_def)

text \<open>
  C9, as stated, fails for a name that \<open>Object.prototype\<close> supplies: the table has no
  entry for \<open>constructor\<close>, yet the lookup is defined, nothing raises, and a blank row is
  rendered.
\<close>

theorem inherited_name_renders_blank_row:
  "sample_registry ''constructor'' = None
   \<and> ChartLabels sample_registry [''afk'', ''constructor''] =
       Inr [\<lparr>row_key = ''constructor'', backgroundColor = '''', borderColor = '''',
              label_text = '':'', data_category = ''constructor'', slot_text = ''''\<rparr>,
            \<lparr>row_key = ''afk'', backgroundColor = ''#111'', borderColor = ''#222'',
              label_text = ''AFK:'', data_category = ''afk'', slot_text = ''''\<rparr>]"
  by (simp add: ChartLabels_def bracket_lookup_def sample_registry_def object_prototype_names_def)

text \<open>
  C9, amended. A category of the list for which the table lookup is \<open>undefined\<close>, that is,
  one without a table entry whose name is not a member of \<open>Object.prototype\<close>, makes
  \<open>ChartLabels\<close> raise a \<open>TypeError\<close>, and with it the render of the chart: no row, blank or
  not, is produced.
\<close>

theorem legend_unknown_category_raises:
  assumes "c \<in> set cats" and "reg c = None" and "c \<notin> set object_prototype_names"
  shows "ChartLabels reg cats = Inl TypeError
         \<and> (categoriesSorted (chartData p) = cats \<and> width p \<noteq> 0 \<and> height p \<noteq> 0
              \<and> renderError st = '''' \<longrightarrow> TimelineDropsChart reg p st = Inl TypeError)"
proof -
  have "c \<in> set (rev cats)" using assms(1) by simp
  then have "ChartLabels reg cats = Inl TypeError"
    unfolding ChartLabels_def Let_def using assms(2,3) by (rule legend_rows_unknown)
  then show ?thesis by (simp add: TimelineDropsChart_def)
qed

theorem legend_unknown_category_raises_witness:
  "ChartLabels sample_registry [''afk'', ''crash'', ''idle''] = Inl TypeError
   \<and> TimelineDropsChart sample_registry
       (sample_inputs\<lparr>chartData := sample_data\<lparr>categoriesSorted := [''afk'', ''crash'', ''idle'']\<rparr>\<rparr>)
       initial = Inl TypeError"
  using legend_unknown_category_raises [of "''crash''" "[''afk'', ''crash'', ''idle'']"
      sample_registry
      "sample_inputs\<lparr>chartData := sample_data\<lparr>categoriesSorted := [''afk'', ''crash'', ''idle'']\<rparr>\<rparr>"
      initial]
  by (simp add: sample_registry_def sample_inputs_def sample_data_def initial_def
      object_prototype_names_def)

text \<open>
  C10. \<open>ChartLabels\<close> reverses a copy: the rows are those of the array the caller passed,
  that array holds the same elements in the same order afterwards, and so does every
  other array that existed before the render.
\<close>

theorem legend_leaves_callers_array:
  assumes "categories < length s"
  shows "fst (ChartLabels_store reg categories s) = ChartLabels reg (s ! categories)
         \<and> snd (ChartLabels_store reg categories s) ! categories = s ! categories
         \<and> take (length s) (snd (ChartLabels_store reg categories s)) = s"
  using assms
  by (simp add: ChartLabels_store_def array_slice_def array_reverse_def ChartLabels_def
      nth_append)

theorem legend_leaves_callers_array_witness:
  "snd (ChartLabels_store sample_registry 1 [[''x''], [''afk'', ''ban'', ''idle'']]) ! 1
     = [''afk'', ''ban'', ''idle'']
   \<and> fst (ChartLabels_store sample_registry 1 [[''x''], [''afk'', ''ban'', ''idle'']])
     = ChartLabels sample_registry [''afk'', ''ban'', ''idle'']"
  using legend_leaves_callers_array [of 1 "[[''x''], [''afk'', ''ban'', ''idle'']]" sample_registry]
  by simp

section \<open>Layout of the surfaces\<close>

text \<open>
  C8. Whenever the component renders the chart, the canvas is \<open>width - left - right\<close> by
  \<open>height - top - bottom\<close> for the margins 42, 8, 8 and 24, and is placed at
  \<open>(left, top)\<close>; the svg has the full \<open>width\<close> and \<open>height\<close> and is placed at \<open>(0, 0)\<close>.
\<close>

theorem raster_inset_by_margins:
  assumes "TimelineDropsChart reg p st = Inr (Chart lg sv cv)"
  shows "canvas_width cv = width p - margin_left margins - margin_right margins
         \<and> canvas_height cv = height p - margin_top margins - margin_bottom margins
         \<and> canvas_left cv = margin_left margins \<and> canvas_top cv = margin_top margins
         \<and> svg_width sv = width p \<and> svg_height sv = height p
         \<and> svg_left sv = 0 \<and> svg_top sv = 0
         \<and> margin_left margins = 42 \<and> margin_right margins = 8
         \<and> margin_top margins = 8 \<and> margin_bottom margins = 24"
  using assms
  by (auto simp: TimelineDropsChart_def margins_def split: if_splits sum.splits)

theorem raster_inset_by_margins_witness:
  "\<exists>lg sv cv. TimelineDropsChart sample_registry sample_inputs initial = Inr (Chart lg sv cv)
     \<and> canvas_width cv = 250 \<and> canvas_height cv = 168
     \<and> canvas_left cv = 42 \<and> canvas_top cv = 8
     \<and> svg_width sv = 300 \<and> svg_height sv = 200"
proof -
  obtain lg sv cv where
    r: "TimelineDropsChart sample_registry sample_inputs initial = Inr (Chart lg sv cv)"
    by (simp add: TimelineDropsChart_def ChartLabels_def bracket_lookup_def sample_registry_def sample_inputs_def
        sample_data_def initial_def)
  from raster_inset_by_margins [OF r] r show ?thesis
    by (simp add: sample_inputs_def)
qed

section \<open>The render cycle\<close>

lemma fold_setRenderError:
  "fold setRenderError ms st = st\<lparr>renderError := last (renderError st # ms)\<rparr>"
  by (induction ms arbitrary: st) (auto simp: setRenderError_def)

lemma render_zero:
  "width p = 0 \<or> height p = 0 \<Longrightarrow> TimelineDropsChart reg p st = Inr Null"
  by (simp add: TimelineDropsChart_def)

lemma render_error:
  "width p \<noteq> 0 \<Longrightarrow> height p \<noteq> 0 \<Longrightarrow> renderError st \<noteq> '''' \<Longrightarrow>
   TimelineDropsChart reg p st =
     Inr (ErrorPanel (''Render Error: '' @ renderError st) (retry_label (errorRetry st)))"
  by (simp add: TimelineDropsChart_def)

lemma render_chart:
  "width p \<noteq> 0 \<Longrightarrow> height p \<noteq> 0 \<Longrightarrow> renderError st = '''' \<Longrightarrow>
   TimelineDropsChart reg p st = Inr v \<Longrightarrow> \<exists>lg sv cv. v = Chart lg sv cv"
  by (auto simp: TimelineDropsChart_def split: sum.splits)

text \<open>A pass that does not reach the drawing routine.\<close>

lemma render_pass_no_draw:
  assumes "TimelineDropsChart reg p st = Inr v"
    and "width p = 0 \<or> height p = 0 \<or> renderError st \<noteq> '''' \<or> log (chartData p) = []
         \<or> lastDeps st = Some (p, '''')"
  shows "render_pass reg drw p st = Inr ((commit v st)\<lparr>lastDeps := Some (p, renderError st)\<rparr>)"
  using assms
  by (auto simp: render_pass_def redraw_effect_def commit_def TimelineDropsChart_def Let_def
      split: if_splits sum.splits vnode.splits option.splits)

lemma render_pass_draw:
  assumes "TimelineDropsChart reg p st = Inr v"
    and "width p \<noteq> 0" "height p \<noteq> 0" "renderError st = []" "log (chartData p) \<noteq> []"
    and "lastDeps st \<noteq> Some (p, [])"
  shows "render_pass reg drw p st =
     (case drw (length (drawCalls st)) (request_of p) of
        Returns reported \<Rightarrow>
          Inr ((commit v st)\<lparr>lastDeps := Some (p, []),
                 drawCalls := drawCalls st @ [request_of p], errorRetry := 0\<rparr>)
      | Throws reported ThrownNullish \<Rightarrow> Inl TypeError
      | Throws reported (ThrownValue message) \<Rightarrow>
          Inr ((commit v st)\<lparr>lastDeps := Some (p, []),
                 drawCalls := drawCalls st @ [request_of p],
                 renderError := caught_message message\<rparr>))"
proof -
  obtain lg sv cv where v: "v = Chart lg sv cv"
    using render_chart [OF assms(2,3,4,1)] by blast
  show ?thesis
    using assms v
    by (simp add: render_pass_def redraw_effect_def commit_def Let_def request_of_def
        caught_message_def fold_setRenderError setRenderError_def setErrorRetry_def
        split: draw_outcome.splits thrown.splits)
qed

lemma settle_no_draw:
  assumes "TimelineDropsChart reg p st = Inr v"
    and "width p = 0 \<or> height p = 0 \<or> renderError st \<noteq> [] \<or> log (chartData p) = []
         \<or> lastDeps st = Some (p, [])"
  shows "settle reg drw p st = Some (Inr ((commit v st)\<lparr>lastDeps := Some (p, renderError st)\<rparr>))"
  by (subst settle.simps) (simp add: render_pass_no_draw [OF assms] commit_def split: vnode.splits)

lemma render_chart_any_retry:
  "renderError st' = [] \<Longrightarrow> renderError st = [] \<Longrightarrow>
   TimelineDropsChart reg p st' = TimelineDropsChart reg p st"
  by (simp add: TimelineDropsChart_def)

lemma settle_draw_returns:
  assumes "TimelineDropsChart reg p st = Inr v"
    and "width p \<noteq> 0" "height p \<noteq> 0" "renderError st = []" "log (chartData p) \<noteq> []"
    and "lastDeps st \<noteq> Some (p, [])"
    and "drw (length (drawCalls st)) (request_of p) = Returns reported"
  shows "settle reg drw p st =
     Some (Inr ((commit v st)\<lparr>lastDeps := Some (p, []),
                  drawCalls := drawCalls st @ [request_of p], errorRetry := 0\<rparr>))"
proof -
  define st1 where "st1 = (commit v st)\<lparr>lastDeps := Some (p, []),
                  drawCalls := drawCalls st @ [request_of p], errorRetry := 0\<rparr>"
  have pass: "render_pass reg drw p st = Inr st1"
    using render_pass_draw [OF assms(1-6), of drw] assms(7) by (simp add: st1_def)
  have e1: "renderError st1 = []"
    using assms(4) by (simp add: st1_def commit_def split: vnode.splits)
  have r1: "TimelineDropsChart reg p st1 = Inr v"
    using render_chart_any_retry [OF e1 assms(4)] assms(1) by simp
  have d1: "lastDeps st1 = Some (p, [])" by (simp add: st1_def)
  obtain lg sv cv where v: "v = Chart lg sv cv"
    using render_chart [OF assms(2,3,4,1)] by blast
  have again: "settle reg drw p st1 = Some (Inr st1)"
    using settle_no_draw [OF r1, of drw] d1 e1
    by (simp add: st1_def commit_def v)
  show ?thesis
    unfolding st1_def [symmetric]
    by (subst settle.simps) (simp add: pass again e1 assms(4))
qed

lemma settle_draw_throws:
  assumes "TimelineDropsChart reg p st = Inr v"
    and "width p \<noteq> 0" "height p \<noteq> 0" "renderError st = []" "log (chartData p) \<noteq> []"
    and "lastDeps st \<noteq> Some (p, [])"
    and "drw (length (drawCalls st)) (request_of p) = Throws reported (ThrownValue message)"
  shows "settle reg drw p st =
     Some (Inr (if caught_message message = [] then
                  (commit v st)\<lparr>lastDeps := Some (p, []),
                     drawCalls := drawCalls st @ [request_of p], renderError := []\<rparr>
                else
                  (commit (ErrorPanel (''Render Error: '' @ caught_message message)
                             (retry_label (errorRetry st))) st)
                    \<lparr>lastDeps := Some (p, caught_message message),
                      drawCalls := drawCalls st @ [request_of p],
                      renderError := caught_message message\<rparr>))"
proof -
  define msg where "msg = caught_message message"
  define st1 where "st1 = (commit v st)\<lparr>lastDeps := Some (p, []),
                  drawCalls := drawCalls st @ [request_of p], renderError := msg\<rparr>"
  have pass: "render_pass reg drw p st = Inr st1"
    using render_pass_draw [OF assms(1-6), of drw] assms(7) by (simp add: st1_def msg_def)
  have e1: "renderError st1 = msg" by (simp add: st1_def)
  have c1: "errorRetry st1 = errorRetry st"
    by (simp add: st1_def commit_def split: vnode.splits)
  show ?thesis
  proof (cases "msg = []")
    case True
    then show ?thesis
      unfolding msg_def [symmetric]
      by (subst settle.simps) (simp add: pass e1 c1 assms(4), simp add: st1_def)
  next
    case False
    have r1: "TimelineDropsChart reg p st1 =
        Inr (ErrorPanel (''Render Error: '' @ msg) (retry_label (errorRetry st)))"
      using render_error [OF assms(2,3), of st1 reg] False e1 c1 by simp
    have again: "settle reg drw p st1 =
        Some (Inr ((commit (ErrorPanel (''Render Error: '' @ msg) (retry_label (errorRetry st))) st1)
                \<lparr>lastDeps := Some (p, msg)\<rparr>))"
      using settle_no_draw [OF r1, of drw] False e1 by simp
    show ?thesis
      unfolding msg_def [symmetric]
      by (subst settle.simps)
        (simp add: pass again e1 assms(4) False, simp add: st1_def commit_def split: vnode.splits)
  qed
qed

lemma settle_draw_throws_nullish:
  assumes "TimelineDropsChart reg p st = Inr v"
    and "width p \<noteq> 0" "height p \<noteq> 0" "renderError st = []" "log (chartData p) \<noteq> []"
    and "lastDeps st \<noteq> Some (p, [])"
    and "drw (length (drawCalls st)) (request_of p) = Throws reported ThrownNullish"
  shows "settle reg drw p st = Some (Inl TypeError)"
  using render_pass_draw [OF assms(1-6), of drw] assms(7)
  by (subst settle.simps) simp

lemma settle_render_raises:
  "TimelineDropsChart reg p st = Inl e \<Longrightarrow> settle reg drw p st = Some (Inl e)"
  by (subst settle.simps) (simp add: render_pass_def)

lemma commit_fields [simp]:
  "renderError (commit v st) = renderError st"
  "errorRetry (commit v st) = errorRetry st"
  "drawCalls (commit v st) = drawCalls st"
  "lastDeps (commit v st) = lastDeps st"
  "mounted (commit v st) = v"
  by (simp_all add: commit_def split: vnode.splits)

text \<open>
  The render cycle always comes to rest: a pass that called the drawing routine is
  followed by at most one more pass, which does not call it.
\<close>

theorem settle_total: "\<exists>r. settle reg drw p st = Some r"
proof (cases "TimelineDropsChart reg p st")
  case (Inl e)
  then show ?thesis by (simp add: settle_render_raises)
next
  case (Inr v)
  show ?thesis
  proof (cases "width p = 0 \<or> height p = 0 \<or> renderError st \<noteq> [] \<or> log (chartData p) = []
         \<or> lastDeps st = Some (p, [])")
    case True
    from settle_no_draw [OF Inr True] show ?thesis by blast
  next
    case False
    then have c: "width p \<noteq> 0" "height p \<noteq> 0" "renderError st = []" "log (chartData p) \<noteq> []"
      "lastDeps st \<noteq> Some (p, [])" by simp_all
    show ?thesis
    proof (cases "drw (length (drawCalls st)) (request_of p)")
      case (Returns reported)
      from settle_draw_returns [where drw = drw, OF Inr c Returns] show ?thesis by blast
    next
      case (Throws reported err)
      show ?thesis
      proof (cases err)
        case ThrownNullish
        from settle_draw_throws_nullish [where drw = drw, OF Inr c Throws [unfolded ThrownNullish]]
        show ?thesis by blast
      next
        case (ThrownValue message)
        from settle_draw_throws [where drw = drw, OF Inr c Throws [unfolded ThrownValue]]
        show ?thesis by blast
      qed
    qed
  qed
qed

lemma settle_drew:
  assumes "settle reg drw p st = Some (Inr st')" and "drawCalls st' \<noteq> drawCalls st"
  shows "\<exists>v. TimelineDropsChart reg p st = Inr v \<and> width p \<noteq> 0 \<and> height p \<noteq> 0
           \<and> renderError st = [] \<and> log (chartData p) \<noteq> [] \<and> lastDeps st \<noteq> Some (p, [])"
proof (cases "TimelineDropsChart reg p st")
  case (Inl e)
  then show ?thesis using assms(1) by (simp add: settle_render_raises)
next
  case (Inr v)
  show ?thesis
  proof (cases "width p = 0 \<or> height p = 0 \<or> renderError st \<noteq> [] \<or> log (chartData p) = []
         \<or> lastDeps st = Some (p, [])")
    case True
    from settle_no_draw [OF Inr True, of drw] assms show ?thesis by auto
  next
    case False
    then show ?thesis using Inr by simp
  qed
qed

section \<open>Preconditions of a draw\<close>

text \<open>
  C2, as stated, fails for a negative size: the guards test \<open>!width\<close> and \<open>!height\<close>, which
  only a zero size satisfies. At width \<open>-5\<close> the surfaces are rendered and the drawing
  routine is called.
\<close>

theorem negative_size_draws:
  "width (sample_inputs\<lparr>width := - 5\<rparr>) \<le> 0
   \<and> result_draws (step sample_registry draw_returns (Render (sample_inputs\<lparr>width := - 5\<rparr>))
         initial) = [request_of (sample_inputs\<lparr>width := - 5\<rparr>)]
   \<and> TimelineDropsChart sample_registry (sample_inputs\<lparr>width := - 5\<rparr>) initial \<noteq> Inr Null"
  by code_simp

text \<open>
  C2, amended. When the width or the height is zero the component renders nothing, the
  effect returns without calling the drawing routine, and the error message and the retry
  count are left as they were.
\<close>

theorem zero_size_no_draw:
  assumes "width p = 0 \<or> height p = 0"
  shows "TimelineDropsChart reg p st = Inr Null
         \<and> redraw_effect drw p st = Inr st
         \<and> (\<exists>st'. step reg drw (Render p) st = Some (Inr st')
               \<and> drawCalls st' = drawCalls st \<and> renderError st' = renderError st
               \<and> errorRetry st' = errorRetry st \<and> mounted st' = Null)"
proof -
  have r: "TimelineDropsChart reg p st = Inr Null"
    using assms by (rule render_zero)
  have e: "redraw_effect drw p st = Inr st"
    using assms by (auto simp: redraw_effect_def split: option.splits)
  have "settle reg drw p st = Some (Inr ((commit Null st)\<lparr>lastDeps := Some (p, renderError st)\<rparr>))"
    using settle_no_draw [OF r, of drw] assms by blast
  then show ?thesis using r e by (simp add: step_def)
qed

theorem zero_size_no_draw_witness:
  "TimelineDropsChart sample_registry (sample_inputs\<lparr>height := 0\<rparr>) initial = Inr Null
   \<and> result_draws (step sample_registry draw_returns (Render (sample_inputs\<lparr>height := 0\<rparr>))
         initial) = []
   \<and> (\<exists>st'. step sample_registry draw_returns (Render (sample_inputs\<lparr>height := 0\<rparr>)) initial
         = Some (Inr st') \<and> renderError st' = [])"
  using zero_size_no_draw [of "sample_inputs\<lparr>height := 0\<rparr>" sample_registry initial draw_returns]
  by (auto simp: sample_inputs_def initial_def result_draws_def)

text \<open>
  C3. When the log of the chart data is empty the effect returns without calling the
  drawing routine and without touching the error message or the retry count, whatever
  the component rendered.
\<close>

theorem empty_log_no_draw:
  assumes "log (chartData p) = []"
  shows "redraw_effect drw p st = Inr st
         \<and> (\<forall>v. TimelineDropsChart reg p st = Inr v \<longrightarrow>
               (\<exists>st'. step reg drw (Render p) st = Some (Inr st')
                  \<and> drawCalls st' = drawCalls st \<and> renderError st' = renderError st
                  \<and> errorRetry st' = errorRetry st \<and> mounted st' = v))"
proof -
  have e: "redraw_effect drw p st = Inr st"
    using assms by (auto simp: redraw_effect_def split: option.splits)
  have "settle reg drw p st = Some (Inr ((commit v st)\<lparr>lastDeps := Some (p, renderError st)\<rparr>))"
    if "TimelineDropsChart reg p st = Inr v" for v
    using settle_no_draw [OF that, of drw] assms by blast
  then show ?thesis using e by (simp add: step_def)
qed

theorem empty_log_no_draw_witness:
  "log (chartData (sample_inputs\<lparr>chartData := sample_data\<lparr>log := []\<rparr>\<rparr>)) = []
   \<and> (\<exists>st' lg sv cv. step sample_registry draw_throws_X
          (Render (sample_inputs\<lparr>chartData := sample_data\<lparr>log := []\<rparr>\<rparr>)) initial = Some (Inr st')
        \<and> drawCalls st' = [] \<and> renderError st' = [] \<and> mounted st' = Chart lg sv cv)"
proof -
  let ?p = "sample_inputs\<lparr>chartData := sample_data\<lparr>log := []\<rparr>\<rparr>"
  have l: "log (chartData ?p) = []" by simp
  obtain lg sv cv where
    r: "TimelineDropsChart sample_registry ?p initial = Inr (Chart lg sv cv)"
    by (simp add: TimelineDropsChart_def ChartLabels_def bracket_lookup_def sample_registry_def sample_inputs_def
        sample_data_def initial_def)
  from empty_log_no_draw [OF l, of draw_throws_X initial sample_registry] r l
  show ?thesis by (auto simp: initial_def)
qed

section \<open>Draws per change of the inputs\<close>

lemma render_same_cells:
  "renderError st' = renderError st \<Longrightarrow> errorRetry st' = errorRetry st \<Longrightarrow>
   TimelineDropsChart reg p st' = TimelineDropsChart reg p st"
  by (simp add: TimelineDropsChart_def)

lemma render_registered:
  assumes "\<forall>c\<in>set (categoriesSorted (chartData p)). reg c \<noteq> None"
  shows "\<exists>v. TimelineDropsChart reg p st = Inr v"
  using ChartLabels_registered [OF assms] by (simp add: TimelineDropsChart_def)

lemma run_same_inputs:
  assumes "lastDeps st = Some (p, renderError st)" and "TimelineDropsChart reg p st = Inr v"
  shows "\<exists>st'. run reg drw (replicate n (Render p)) st = Some (Inr st')
           \<and> drawCalls st' = drawCalls st \<and> renderError st' = renderError st
           \<and> errorRetry st' = errorRetry st"
  using assms
proof (induction n arbitrary: st)
  case 0
  then show ?case by simp
next
  case (Suc n)
  let ?st1 = "(commit v st)\<lparr>lastDeps := Some (p, renderError st)\<rparr>"
  have nd: "width p = 0 \<or> height p = 0 \<or> renderError st \<noteq> [] \<or> log (chartData p) = []
         \<or> lastDeps st = Some (p, [])"
    using Suc.prems(1) by (cases "renderError st = []") simp_all
  have s: "step reg drw (Render p) st = Some (Inr ?st1)"
    using settle_no_draw [OF Suc.prems(2) nd, of drw] by (simp add: step_def)
  have d1: "lastDeps ?st1 = Some (p, renderError ?st1)" by simp
  have r1: "TimelineDropsChart reg p ?st1 = Inr v"
    using render_same_cells [of ?st1 st reg p] Suc.prems(2) by simp
  from Suc.IH [OF d1 r1] s show ?case by simp
qed

lemma run_error_state:
  assumes "renderError st \<noteq> []"
  shows "\<exists>st'. run reg drw (map Render ps) st = Some (Inr st')
           \<and> drawCalls st' = drawCalls st \<and> renderError st' = renderError st
           \<and> errorRetry st' = errorRetry st"
  using assms
proof (induction ps arbitrary: st)
  case Nil
  then show ?case by simp
next
  case (Cons p ps)
  have "\<exists>v. TimelineDropsChart reg p st = Inr v"
    using Cons.prems by (simp add: TimelineDropsChart_def)
  then obtain v where r: "TimelineDropsChart reg p st = Inr v" by blast
  let ?st1 = "(commit v st)\<lparr>lastDeps := Some (p, renderError st)\<rparr>"
  have s: "step reg drw (Render p) st = Some (Inr ?st1)"
    using settle_no_draw [OF r, of drw] Cons.prems by (simp add: step_def)
  have e1: "renderError ?st1 \<noteq> []" using Cons.prems by simp
  from Cons.IH [OF e1] s show ?case by simp
qed

text \<open>
  C1. Take inputs of non-zero size with a non-empty log and registered categories, an
  instance that shows no error, and let the inputs differ from those of the last pass.
  Rendering them calls the drawing routine exactly once. Rendering the same inputs again,
  any number of times, calls it no more. If that one call failed with a message, no
  sequence of further renders, with the same or with other inputs, calls it again: only a
  click on the retry button does.
\<close>

theorem one_draw_per_change:
  assumes "width p \<noteq> 0" and "height p \<noteq> 0" and "log (chartData p) \<noteq> []"
    and "\<forall>c\<in>set (categoriesSorted (chartData p)). reg c \<noteq> None"
    and "renderError st = []" and "lastDeps st \<noteq> Some (p, [])"
    and "\<forall>reported. drw (length (drawCalls st)) (request_of p) \<noteq> Throws reported ThrownNullish"
  shows "\<exists>st1. step reg drw (Render p) st = Some (Inr st1)
           \<and> drawCalls st1 = drawCalls st @ [request_of p]
           \<and> (\<forall>n. \<exists>st2. run reg drw (replicate n (Render p)) st1 = Some (Inr st2)
                 \<and> drawCalls st2 = drawCalls st1)
           \<and> (renderError st1 \<noteq> [] \<longrightarrow>
                 (\<forall>ps. \<exists>st2. run reg drw (map Render ps) st1 = Some (Inr st2)
                    \<and> drawCalls st2 = drawCalls st1 \<and> renderError st2 = renderError st1))"
proof -
  obtain v where r: "TimelineDropsChart reg p st = Inr v"
    using render_registered [OF assms(4)] by blast
  note c = assms(1,2,5,3,6)
  have "\<exists>st1. settle reg drw p st = Some (Inr st1)
          \<and> drawCalls st1 = drawCalls st @ [request_of p]
          \<and> lastDeps st1 = Some (p, renderError st1)"
  proof (cases "drw (length (drawCalls st)) (request_of p)")
    case (Returns reported)
    from settle_draw_returns [where drw = drw, OF r c Returns] assms(5)
    show ?thesis by simp
  next
    case (Throws reported err)
    then obtain message where err: "err = ThrownValue message"
      using assms(7) by (cases err) auto
    from settle_draw_throws [where drw = drw, OF r c Throws [unfolded err]]
    show ?thesis by simp
  qed
  then obtain st1 where s: "settle reg drw p st = Some (Inr st1)"
    and d: "drawCalls st1 = drawCalls st @ [request_of p]"
    and l: "lastDeps st1 = Some (p, renderError st1)" by blast
  obtain v1 where r1: "TimelineDropsChart reg p st1 = Inr v1"
    using render_registered [OF assms(4)] by blast
  have same: "\<exists>st2. run reg drw (replicate n (Render p)) st1 = Some (Inr st2)
                 \<and> drawCalls st2 = drawCalls st1" for n
    using run_same_inputs [OF l r1, of drw n] by blast
  have failed: "\<exists>st2. run reg drw (map Render ps) st1 = Some (Inr st2)
                    \<and> drawCalls st2 = drawCalls st1 \<and> renderError st2 = renderError st1"
    if "renderError st1 \<noteq> []" for ps
    using run_error_state [OF that, of reg drw ps] by blast
  show ?thesis
    using s d same failed by (auto simp: step_def)
qed

lemma sample_valid:
  "width sample_inputs \<noteq> 0" "height sample_inputs \<noteq> 0" "log (chartData sample_inputs) \<noteq> []"
  "\<forall>c\<in>set (categoriesSorted (chartData sample_inputs)). sample_registry c \<noteq> None"
  by (simp_all add: sample_inputs_def sample_data_def sample_registry_def)

theorem one_draw_per_change_witness:
  "\<exists>st1. step sample_registry draw_throws_X (Render sample_inputs) initial = Some (Inr st1)
     \<and> drawCalls st1 = [request_of sample_inputs] \<and> renderError st1 = ''X''
     \<and> (\<exists>st2. run sample_registry draw_throws_X (replicate 3 (Render sample_inputs)) st1
            = Some (Inr st2) \<and> drawCalls st2 = [request_of sample_inputs])
     \<and> (\<exists>st2. run sample_registry draw_throws_X
            (map Render [sample_inputs\<lparr>width := 640\<rparr>, sample_inputs]) st1
            = Some (Inr st2) \<and> drawCalls st2 = [request_of sample_inputs])"
proof -
  have h5: "renderError (initial :: nat inst) = []" by (simp add: initial_def)
  have h6: "lastDeps (initial :: nat inst) \<noteq> Some (sample_inputs, [])" by (simp add: initial_def)
  have h7: "\<forall>reported. draw_throws_X (length (drawCalls (initial :: nat inst)))
              (request_of sample_inputs) \<noteq> Throws reported ThrownNullish"
    by (simp add: draw_throws_X_def)
  from one_draw_per_change [where drw = draw_throws_X, OF sample_valid h5 h6 h7]
  obtain st1 where s: "step sample_registry draw_throws_X (Render sample_inputs) initial
        = Some (Inr st1)"
    and d: "drawCalls st1 = drawCalls (initial :: nat inst) @ [request_of sample_inputs]"
    and same: "\<forall>n. \<exists>st2. run sample_registry draw_throws_X (replicate n (Render sample_inputs)) st1
          = Some (Inr st2) \<and> drawCalls st2 = drawCalls st1"
    and failed: "renderError st1 \<noteq> [] \<longrightarrow>
          (\<forall>ps. \<exists>st2. run sample_registry draw_throws_X (map Render ps) st1 = Some (Inr st2)
             \<and> drawCalls st2 = drawCalls st1 \<and> renderError st2 = renderError st1)"
    by blast
  obtain v where r: "TimelineDropsChart sample_registry sample_inputs initial = Inr v"
    using render_registered [OF sample_valid(4)] by blast
  have t: "draw_throws_X (length (drawCalls (initial :: nat inst))) (request_of sample_inputs)
      = Throws [] (ThrownValue (Some ''X''))"
    by (simp add: draw_throws_X_def)
  have e: "renderError st1 = ''X''"
    using settle_draw_throws [where drw = draw_throws_X,
        OF r sample_valid(1,2) h5 sample_valid(3) h6 t] s
    by (auto simp: step_def caught_message_def)
  have d': "drawCalls st1 = [request_of sample_inputs]"
    using d by (simp add: initial_def)
  from same d' have a: "\<exists>st2. run sample_registry draw_throws_X
      (replicate 3 (Render sample_inputs)) st1 = Some (Inr st2)
      \<and> drawCalls st2 = [request_of sample_inputs]" by metis
  from failed e d' have b: "\<exists>st2. run sample_registry draw_throws_X
      (map Render [sample_inputs\<lparr>width := 640\<rparr>, sample_inputs]) st1 = Some (Inr st2)
      \<and> drawCalls st2 = [request_of sample_inputs]" by (metis list.distinct(1))
  from s d' e a b show ?thesis by blast
qed

section \<open>The error panel and the retry count\<close>

lemma run_append:
  "run reg drw (evs @ evs') st =
     (case run reg drw evs st of
        Some (Inr st') \<Rightarrow> run reg drw evs' st'
      | r \<Rightarrow> r)"
  by (induction evs arbitrary: st) (auto split: option.splits sum.splits)

lemma retry_label_cases:
  "retry_label n = (if n = 0 then ''Retry'' else ''Retry ('' @ show_nat n @ '')'')"
  by (simp add: retry_label_def)

text \<open>A click on the retry button whose draw fails again with a message.\<close>

lemma failed_retry:
  assumes "width p \<noteq> 0" and "height p \<noteq> 0" and "log (chartData p) \<noteq> []"
    and "\<forall>c\<in>set (categoriesSorted (chartData p)). reg c \<noteq> None"
    and "mounted st = ErrorPanel txt btn" and "lastDeps st = Some (p, e)" and "e \<noteq> []"
    and "drw (length (drawCalls st)) (request_of p) = Throws reported (ThrownValue (Some X))"
    and "X \<noteq> []"
  shows "\<exists>st'. step reg drw ClickRetry st = Some (Inr st')
           \<and> errorRetry st' = errorRetry st + 1 \<and> renderError st' = X
           \<and> mounted st' = ErrorPanel (''Render Error: '' @ X) (retry_label (errorRetry st + 1))
           \<and> lastDeps st' = Some (p, X)
           \<and> drawCalls st' = drawCalls st @ [request_of p]"
proof -
  let ?st0 = "setRenderError [] (setErrorRetry (errorRetry st + 1) st)"
  have e0: "renderError ?st0 = []" by (simp add: setRenderError_def)
  have l0: "lastDeps ?st0 \<noteq> Some (p, [])"
    using assms(6,7) by (simp add: setRenderError_def setErrorRetry_def)
  have k0: "drawCalls ?st0 = drawCalls st" by (simp add: setRenderError_def setErrorRetry_def)
  have c0: "errorRetry ?st0 = errorRetry st + 1" by (simp add: setRenderError_def setErrorRetry_def)
  obtain v where r: "TimelineDropsChart reg p ?st0 = Inr v"
    using render_registered [OF assms(4)] by blast
  have t: "drw (length (drawCalls ?st0)) (request_of p) = Throws reported (ThrownValue (Some X))"
    using assms(8) k0 by simp
  have s: "step reg drw ClickRetry st = settle reg drw p ?st0"
    using assms(5,6) by (simp add: step_def)
  show ?thesis
    unfolding s
    using settle_draw_throws [where drw = drw, OF r assms(1,2) e0 assms(3) l0 t] assms(9) k0 c0
    by (simp add: caught_message_def)
qed

lemma failures_then_retries:
  assumes "width p \<noteq> 0" and "height p \<noteq> 0" and "log (chartData p) \<noteq> []"
    and "\<forall>c\<in>set (categoriesSorted (chartData p)). reg c \<noteq> None"
    and "renderError st = []" and "lastDeps st \<noteq> Some (p, [])"
    and "\<forall>k\<le>n. \<exists>reported. drw (length (drawCalls st) + k) (request_of p)
            = Throws reported (ThrownValue (Some (msgs k))) \<and> msgs k \<noteq> []"
  shows "\<exists>st'. run reg drw (Render p # replicate n ClickRetry) st = Some (Inr st')
           \<and> errorRetry st' = errorRetry st + n \<and> renderError st' = msgs n
           \<and> mounted st' = ErrorPanel (''Render Error: '' @ msgs n) (retry_label (errorRetry st + n))
           \<and> lastDeps st' = Some (p, msgs n)
           \<and> length (drawCalls st') = length (drawCalls st) + Suc n"
  using assms(7)
proof (induction n)
  case 0
  then obtain reported where
    t: "drw (length (drawCalls st)) (request_of p) = Throws reported (ThrownValue (Some (msgs 0)))"
    and m: "msgs 0 \<noteq> []" by auto
  obtain v where r: "TimelineDropsChart reg p st = Inr v"
    using render_registered [OF assms(4)] by blast
  show ?case
    using settle_draw_throws [where drw = drw, OF r assms(1,2,5,3,6) t] m
    by (simp add: step_def caught_message_def)
next
  case (Suc n)
  from Suc.prems have "\<forall>k\<le>n. \<exists>reported. drw (length (drawCalls st) + k) (request_of p)
            = Throws reported (ThrownValue (Some (msgs k))) \<and> msgs k \<noteq> []" by simp
  from Suc.IH [OF this] obtain st1 where
    r1: "run reg drw (Render p # replicate n ClickRetry) st = Some (Inr st1)"
    and c1: "errorRetry st1 = errorRetry st + n" and e1: "renderError st1 = msgs n"
    and m1: "mounted st1 = ErrorPanel (''Render Error: '' @ msgs n) (retry_label (errorRetry st + n))"
    and l1: "lastDeps st1 = Some (p, msgs n)"
    and k1: "length (drawCalls st1) = length (drawCalls st) + Suc n" by blast
  from Suc.prems have mn: "msgs n \<noteq> []" by auto
  from Suc.prems obtain reported where
    t: "drw (length (drawCalls st1)) (request_of p)
          = Throws reported (ThrownValue (Some (msgs (Suc n))))"
    and m: "msgs (Suc n) \<noteq> []" unfolding k1 by auto
  from failed_retry [where drw = drw, OF assms(1-4) m1 l1 mn t m] obtain st2 where
    s2: "step reg drw ClickRetry st1 = Some (Inr st2)"
    and f2: "errorRetry st2 = errorRetry st1 + 1" "renderError st2 = msgs (Suc n)"
      "mounted st2 = ErrorPanel (''Render Error: '' @ msgs (Suc n)) (retry_label (errorRetry st1 + 1))"
      "lastDeps st2 = Some (p, msgs (Suc n))"
      "drawCalls st2 = drawCalls st1 @ [request_of p]" by blast
  have "Render p # replicate (Suc n) ClickRetry = (Render p # replicate n ClickRetry) @ [ClickRetry]"
    by (simp add: replicate_append_same)
  then have "run reg drw (Render p # replicate (Suc n) ClickRetry) st = Some (Inr st2)"
    using r1 s2 by (simp only: run_append) simp
  then show ?case using f2 c1 k1 by simp
qed

text \<open>What \<open>show_nat\<close> prints is the decimal numeral of its argument, and the only one.\<close>

lemma digit_value_nth: "d < 10 \<Longrightarrow> digit_value (''0123456789'' ! d) = Some d"
proof -
  assume "d < 10"
  then have "d \<in> {0, 1, 2, 3, 4, 5, 6, 7, 8, 9}" by auto
  then show ?thesis by (auto simp: digit_value_def)
qed

lemma digit_value_inv:
  "digit_value c = Some d \<Longrightarrow> d < 10 \<and> c = ''0123456789'' ! d"
  by (auto simp: digit_value_def split: if_splits)

lemma digits_value_append:
  "digits_value acc (xs @ ys) =
     (case digits_value acc xs of None \<Rightarrow> None | Some a \<Rightarrow> digits_value a ys)"
  by (induction xs arbitrary: acc) (auto split: option.splits)

lemma digits_value_ge: "digits_value acc cs = Some v \<Longrightarrow> acc \<le> v"
proof (induction cs arbitrary: acc)
  case Nil
  then show ?case by simp
next
  case (Cons c cs)
  then obtain d where "digit_value c = Some d" "digits_value (10 * acc + d) cs = Some v"
    by (auto split: option.splits)
  with Cons.IH [of "10 * acc + d"] show ?case by simp
qed

lemma show_nat_small: "n < 10 \<Longrightarrow> show_nat n = [''0123456789'' ! n]"
  by (subst show_nat.simps) simp

lemma show_nat_large:
  "\<not> n < 10 \<Longrightarrow> show_nat n = show_nat (n div 10) @ [''0123456789'' ! (n mod 10)]"
  by (subst show_nat.simps) simp

lemma show_nat_nonempty: "show_nat n \<noteq> []"
  by (cases "n < 10") (simp_all add: show_nat_small show_nat_large)

lemma show_nat_value: "digits_value 0 (show_nat n) = Some n"
proof (induction n rule: show_nat.induct)
  case (1 n)
  show ?case
  proof (cases "n < 10")
    case True
    then show ?thesis by (simp add: show_nat_small digit_value_nth)
  next
    case False
    then show ?thesis
      using "1.IH" by (simp add: show_nat_large digits_value_append digit_value_nth)
  qed
qed

lemma show_nat_no_leading_zero: "show_nat n = ''0'' \<or> hd (show_nat n) \<noteq> CHR ''0''"
proof (induction n rule: show_nat.induct)
  case (1 n)
  show ?case
  proof (cases "n < 10")
    case True
    then have "n \<in> {0, 1, 2, 3, 4, 5, 6, 7, 8, 9}" by auto
    then show ?thesis by (auto simp: show_nat_small)
  next
    case False
    have "show_nat (n div 10) \<noteq> ''0''"
    proof
      assume "show_nat (n div 10) = ''0''"
      with show_nat_value [of "n div 10"] have "n div 10 = 0" by (simp add: digit_value_def)
      with False show False by simp
    qed
    with "1.IH" False have "hd (show_nat (n div 10)) \<noteq> CHR ''0''" by simp
    then show ?thesis
      using False by (simp add: show_nat_large show_nat_nonempty)
  qed
qed

lemma show_nat_decimal: "decimal_numeral_of (show_nat n) n"
  using show_nat_no_leading_zero [of n]
  by (simp add: decimal_numeral_of_def show_nat_nonempty show_nat_value)

lemma decimal_numeral_is_show_nat: "decimal_numeral_of ds n \<Longrightarrow> ds = show_nat n"
proof (induction ds arbitrary: n rule: rev_induct)
  case Nil
  then show ?case by (simp add: decimal_numeral_of_def)
next
  case (snoc c xs)
  from snoc.prems have v: "digits_value 0 (xs @ [c]) = Some n"
    and z: "xs @ [c] = ''0'' \<or> hd (xs @ [c]) \<noteq> CHR ''0''"
    by (simp_all add: decimal_numeral_of_def)
  from v obtain a d where a: "digits_value 0 xs = Some a" and d: "digit_value c = Some d"
    and n: "n = 10 * a + d"
    by (auto simp: digits_value_append split: option.splits)
  from digit_value_inv [OF d] have d10: "d < 10" and c: "c = ''0123456789'' ! d" by simp_all
  show ?case
  proof (cases xs)
    case Nil
    then have "n = d" using a n by simp
    then show ?thesis using Nil d10 c by (simp add: show_nat_small)
  next
    case (Cons x xs')
    then have h: "hd xs \<noteq> CHR ''0''" using z by auto
    then have dec: "decimal_numeral_of xs a"
      using Cons a by (simp add: decimal_numeral_of_def)
    from snoc.IH [OF dec] have xs: "xs = show_nat a" .
    obtain d0 where d0: "digit_value x = Some d0" "digits_value d0 xs' = Some a"
      using a Cons by (auto split: option.splits)
    have "d0 \<noteq> 0" using d0(1) h Cons by (auto simp: digit_value_def split: if_splits)
    with digits_value_ge [OF d0(2)] have "1 \<le> a" by simp
    then have "\<not> n < 10" "n div 10 = a" "n mod 10 = d" using n d10 by simp_all
    then show ?thesis using xs c by (simp add: show_nat_large)
  qed
qed

lemma decimal_numeral_unique:
  "decimal_numeral_of ds n \<Longrightarrow> decimal_numeral_of ds' n \<Longrightarrow> ds = ds'"
  using decimal_numeral_is_show_nat by blast

text \<open>
  C5. At a non-zero size, an instance whose error message is \<open>X\<close> renders the error
  panel with the text \<open>Render Error: X\<close> and a button labelled \<open>Retry\<close> when the retry count
  is zero and \<open>Retry (N)\<close> when it is \<open>N > 0\<close>, where \<open>N\<close> stands for the decimal numeral of the
  count. Starting without an error and with a retry count of zero, a first failed draw
  followed by \<open>n\<close> clicks on the button, each followed by another failed draw, ends with
  the retry count \<open>n\<close>, the message of the last failure and the matching label mounted.
\<close>

theorem error_panel_retry_label:
  assumes "width p \<noteq> 0" and "height p \<noteq> 0"
  shows "(renderError st \<noteq> [] \<longrightarrow>
            (\<exists>ds. decimal_numeral_of ds (errorRetry st)
               \<and> TimelineDropsChart reg p st =
                   Inr (ErrorPanel (''Render Error: '' @ renderError st)
                          (if errorRetry st = 0 then ''Retry'' else ''Retry ('' @ ds @ '')''))))
         \<and> (log (chartData p) \<noteq> []
              \<and> (\<forall>c\<in>set (categoriesSorted (chartData p)). reg c \<noteq> None)
              \<and> renderError st0 = [] \<and> errorRetry st0 = 0 \<and> lastDeps st0 \<noteq> Some (p, [])
              \<and> (\<forall>k\<le>n. \<exists>reported. drw (length (drawCalls st0) + k) (request_of p)
                     = Throws reported (ThrownValue (Some (msgs k))) \<and> msgs k \<noteq> []) \<longrightarrow>
            (\<exists>st' ds. run reg drw (Render p # replicate n ClickRetry) st0 = Some (Inr st')
               \<and> errorRetry st' = n \<and> renderError st' = msgs n
               \<and> decimal_numeral_of ds n
               \<and> mounted st' = ErrorPanel (''Render Error: '' @ msgs n)
                                  (if n = 0 then ''Retry'' else ''Retry ('' @ ds @ '')'')))"
proof (intro conjI impI)
  assume "renderError st \<noteq> []"
  then have "TimelineDropsChart reg p st =
      Inr (ErrorPanel (''Render Error: '' @ renderError st)
             (if errorRetry st = 0 then ''Retry''
              else ''Retry ('' @ show_nat (errorRetry st) @ '')''))"
    using render_error [OF assms, of st reg] by (simp add: retry_label_cases)
  with show_nat_decimal [of "errorRetry st"]
  show "\<exists>ds. decimal_numeral_of ds (errorRetry st)
      \<and> TimelineDropsChart reg p st =
          Inr (ErrorPanel (''Render Error: '' @ renderError st)
                 (if errorRetry st = 0 then ''Retry'' else ''Retry ('' @ ds @ '')''))"
    by blast
next
  assume a: "log (chartData p) \<noteq> []
      \<and> (\<forall>c\<in>set (categoriesSorted (chartData p)). reg c \<noteq> None)
      \<and> renderError st0 = [] \<and> errorRetry st0 = 0 \<and> lastDeps st0 \<noteq> Some (p, [])
      \<and> (\<forall>k\<le>n. \<exists>reported. drw (length (drawCalls st0) + k) (request_of p)
             = Throws reported (ThrownValue (Some (msgs k))) \<and> msgs k \<noteq> [])"
  then have l: "log (chartData p) \<noteq> []"
    and g: "\<forall>c\<in>set (categoriesSorted (chartData p)). reg c \<noteq> None"
    and e: "renderError st0 = []" and c: "errorRetry st0 = 0"
    and d: "lastDeps st0 \<noteq> Some (p, [])"
    and f: "\<forall>k\<le>n. \<exists>reported. drw (length (drawCalls st0) + k) (request_of p)
             = Throws reported (ThrownValue (Some (msgs k))) \<and> msgs k \<noteq> []"
    by blast+
  from failures_then_retries [where drw = drw, OF assms l g e d f] c
  obtain st' where
    r: "run reg drw (Render p # replicate n ClickRetry) st0 = Some (Inr st')"
    and s: "errorRetry st' = n" "renderError st' = msgs n"
    and m: "mounted st' = ErrorPanel (''Render Error: '' @ msgs n)
              (if n = 0 then ''Retry'' else ''Retry ('' @ show_nat n @ '')'')"
    by (auto simp only: retry_label_cases add_0)
  with show_nat_decimal [of n]
  show "\<exists>st' ds. run reg drw (Render p # replicate n ClickRetry) st0 = Some (Inr st')
      \<and> errorRetry st' = n \<and> renderError st' = msgs n
      \<and> decimal_numeral_of ds n
      \<and> mounted st' = ErrorPanel (''Render Error: '' @ msgs n)
                         (if n = 0 then ''Retry'' else ''Retry ('' @ ds @ '')'')"
    by blast
qed

theorem error_panel_retry_label_witness:
  "TimelineDropsChart sample_registry sample_inputs (initial\<lparr>renderError := ''X''\<rparr>)
     = Inr (ErrorPanel ''Render Error: X'' ''Retry'')
   \<and> TimelineDropsChart sample_registry sample_inputs
       (initial\<lparr>renderError := ''X'', errorRetry := 120\<rparr>)
     = Inr (ErrorPanel ''Render Error: X'' ''Retry (120)'')
   \<and> (\<exists>st'. run sample_registry draw_throws_X (Render sample_inputs # replicate 12 ClickRetry)
          initial = Some (Inr st')
        \<and> errorRetry st' = 12 \<and> renderError st' = ''X''
        \<and> mounted st' = ErrorPanel ''Render Error: X'' ''Retry (12)'')"
proof -
  have zero: "TimelineDropsChart sample_registry sample_inputs (initial\<lparr>renderError := ''X''\<rparr>)
      = Inr (ErrorPanel ''Render Error: X'' ''Retry'')"
    using error_panel_retry_label [where drw = draw_throws_X and msgs = "\<lambda>k. ''X''",
        OF sample_valid(1,2), of "initial\<lparr>renderError := ''X''\<rparr>" sample_registry initial 0]
    by (simp add: initial_def)
  have d120: "decimal_numeral_of ''120'' 120" and d12: "decimal_numeral_of ''12'' 12"
    by (simp_all add: decimal_numeral_of_def digit_value_def)
  from error_panel_retry_label [where drw = draw_throws_X and msgs = "\<lambda>k. ''X''",
      OF sample_valid(1,2), of "initial\<lparr>renderError := ''X'', errorRetry := 120\<rparr>"
      sample_registry initial 12]
    sample_valid(3,4)
  obtain ds1 st' ds2 where
    n1: "decimal_numeral_of ds1 120"
    and r1: "TimelineDropsChart sample_registry sample_inputs
        (initial\<lparr>renderError := ''X'', errorRetry := 120\<rparr>)
        = Inr (ErrorPanel ''Render Error: X'' (''Retry ('' @ ds1 @ '')''))"
    and r2: "run sample_registry draw_throws_X (Render sample_inputs # replicate 12 ClickRetry)
        initial = Some (Inr st')"
    and s2: "errorRetry st' = 12" "renderError st' = ''X''"
    and n2: "decimal_numeral_of ds2 12"
    and m2: "mounted st' = ErrorPanel ''Render Error: X'' (''Retry ('' @ ds2 @ '')'')"
    by (auto simp: initial_def draw_throws_X_def)
  have "ds1 = ''120''" using n1 d120 by (rule decimal_numeral_unique)
  moreover have "ds2 = ''12''" using n2 d12 by (rule decimal_numeral_unique)
  ultimately show ?thesis using zero r1 r2 s2 m2 by auto
qed

section \<open>A draw that returns\<close>

text \<open>A step that called the drawing routine went through the draw branch of a cycle.\<close>

lemma step_drew:
  assumes "step reg drw ev st = Some (Inr st1)" and "drawCalls st1 \<noteq> drawCalls st"
  shows "\<exists>p st0. settle reg drw p st0 = Some (Inr st1) \<and> drawCalls st0 = drawCalls st
           \<and> (ev = Render p \<or> ev = ClickRetry)"
proof (cases ev)
  case (Render p)
  then show ?thesis using assms by (auto simp: step_def)
next
  case ClickRetry
  show ?thesis
  proof (cases "\<exists>txt btn p e. mounted st = ErrorPanel txt btn \<and> lastDeps st = Some (p, e)")
    case True
    then obtain title btn p e where "mounted st = ErrorPanel title btn" "lastDeps st = Some (p, e)"
      by blast
    then have "settle reg drw p (setRenderError [] (setErrorRetry (errorRetry st + 1) st))
        = Some (Inr st1)"
      using assms(1) ClickRetry by (simp add: step_def)
    then show ?thesis
      using ClickRetry by (intro exI conjI) (assumption, simp_all add: setRenderError_def setErrorRetry_def)
  next
    case False
    then have "step reg drw ev st = Some (Inr st)"
      using ClickRetry by (auto simp: step_def split: vnode.splits option.splits)
    then show ?thesis using assms by simp
  qed
qed

text \<open>The state a cycle ends in when it called the drawing routine.\<close>

lemma settle_drew_result:
  assumes "settle reg drw p st = Some (Inr st')" and "drawCalls st' \<noteq> drawCalls st"
  shows "drawCalls st' = drawCalls st @ [request_of p]
         \<and> (case drw (length (drawCalls st)) (request_of p) of
               Returns reported \<Rightarrow>
                 renderError st' = [] \<and> errorRetry st' = 0
                 \<and> (\<exists>lg sv cv. mounted st' = Chart lg sv cv)
             | Throws reported err \<Rightarrow>
                 (\<exists>message. err = ThrownValue message
                    \<and> renderError st' = caught_message message
                    \<and> errorRetry st' = errorRetry st
                    \<and> (caught_message message \<noteq> [] \<longrightarrow>
                          mounted st' = ErrorPanel (''Render Error: '' @ caught_message message)
                                          (retry_label (errorRetry st)))
                    \<and> (caught_message message = [] \<longrightarrow>
                          (\<exists>lg sv cv. mounted st' = Chart lg sv cv))))"
proof -
  from settle_drew [OF assms] obtain v where r: "TimelineDropsChart reg p st = Inr v"
    and c: "width p \<noteq> 0" "height p \<noteq> 0" "renderError st = []" "log (chartData p) \<noteq> []"
      "lastDeps st \<noteq> Some (p, [])" by blast
  obtain lg sv cv where v: "v = Chart lg sv cv"
    using render_chart [OF c(1,2,3) r] by blast
  show ?thesis
  proof (cases "drw (length (drawCalls st)) (request_of p)")
    case (Returns reported)
    from settle_draw_returns [where drw = drw, OF r c Returns] assms(1) c(3) v
    show ?thesis by (auto simp: Returns)
  next
    case (Throws reported err)
    show ?thesis
    proof (cases err)
      case ThrownNullish
      from settle_draw_throws_nullish [where drw = drw, OF r c Throws [unfolded ThrownNullish]]
        assms(1)
      show ?thesis by simp
    next
      case (ThrownValue message)
      from settle_draw_throws [where drw = drw, OF r c Throws [unfolded ThrownValue]] assms(1) v
      show ?thesis by (auto simp: Throws ThrownValue split: if_splits)
    qed
  qed
qed

text \<open>
  C6. Whenever a render or a click on the retry button called the drawing routine and
  the call returned, the instance ends with an empty error message, a retry count of zero
  and the chart surfaces mounted. The next failed draw after that shows the panel with the
  button labelled \<open>Retry\<close>, without a number.
\<close>

theorem successful_draw_resets:
  assumes "step reg drw ev st = Some (Inr st1)" and "drawCalls st1 \<noteq> drawCalls st"
    and "drw (length (drawCalls st)) (last (drawCalls st1)) = Returns reported"
  shows "renderError st1 = [] \<and> errorRetry st1 = 0
         \<and> (\<exists>lg sv cv. mounted st1 = Chart lg sv cv)
         \<and> (\<forall>ev2 st2 reported2 X.
               step reg drw ev2 st1 = Some (Inr st2) \<and> drawCalls st2 \<noteq> drawCalls st1
               \<and> drw (length (drawCalls st1)) (last (drawCalls st2))
                    = Throws reported2 (ThrownValue (Some X)) \<and> X \<noteq> [] \<longrightarrow>
               mounted st2 = ErrorPanel (''Render Error: '' @ X) ''Retry'')"
proof -
  from step_drew [OF assms(1,2)] obtain p st0 where
    s: "settle reg drw p st0 = Some (Inr st1)" and k: "drawCalls st0 = drawCalls st" by blast
  from settle_drew_result [OF s] assms(2,3) k
  have first: "renderError st1 = [] \<and> errorRetry st1 = 0
         \<and> (\<exists>lg sv cv. mounted st1 = Chart lg sv cv)"
    by (auto split: draw_outcome.splits)
  have second: "mounted st2 = ErrorPanel (''Render Error: '' @ X) ''Retry''"
    if a: "step reg drw ev2 st1 = Some (Inr st2)" "drawCalls st2 \<noteq> drawCalls st1"
      "drw (length (drawCalls st1)) (last (drawCalls st2)) = Throws reported2 (ThrownValue (Some X))"
      "X \<noteq> []"
    for ev2 st2 reported2 X
  proof -
    have ev2: "ev2 \<noteq> ClickRetry"
      using a(1,2) first by (auto simp: step_def)
    then obtain p2 where p2: "ev2 = Render p2" by (cases ev2) auto
    then have s2: "settle reg drw p2 st1 = Some (Inr st2)" using a(1) by (simp add: step_def)
    from settle_drew_result [OF s2 a(2)] a(3,4) first
    show ?thesis by (auto simp: caught_message_def retry_label_def split: draw_outcome.splits)
  qed
  from first second show ?thesis by blast
qed

theorem successful_draw_resets_witness:
  "\<exists>st st1 st2.
     run sample_registry draw_recovers_once [Render sample_inputs, ClickRetry] initial = Some (Inr st)
     \<and> renderError st = ''X'' \<and> errorRetry st = 1
     \<and> step sample_registry draw_recovers_once ClickRetry st = Some (Inr st1)
     \<and> length (drawCalls st1) = 3 \<and> renderError st1 = [] \<and> errorRetry st1 = 0
     \<and> (\<exists>lg sv cv. mounted st1 = Chart lg sv cv)
     \<and> step sample_registry draw_recovers_once (Render (sample_inputs\<lparr>width := 640\<rparr>)) st1
          = Some (Inr st2)
     \<and> mounted st2 = ErrorPanel ''Render Error: X'' ''Retry''"
proof -
  have "case run sample_registry draw_recovers_once [Render sample_inputs, ClickRetry] initial of
          Some (Inr st) \<Rightarrow>
            renderError st = ''X'' \<and> errorRetry st = 1
            \<and> (case step sample_registry draw_recovers_once ClickRetry st of
                  Some (Inr st1) \<Rightarrow>
                    length (drawCalls st1) = 3 \<and> drawCalls st1 \<noteq> drawCalls st
                    \<and> length (drawCalls st) = 2
                    \<and> (case step sample_registry draw_recovers_once
                               (Render (sample_inputs\<lparr>width := 640\<rparr>)) st1 of
                          Some (Inr st2) \<Rightarrow> length (drawCalls st2) = 4
                        | _ \<Rightarrow> False)
                | _ \<Rightarrow> False)
        | _ \<Rightarrow> False"
    by code_simp
  then obtain st st1 st2 where
    r: "run sample_registry draw_recovers_once [Render sample_inputs, ClickRetry] initial
          = Some (Inr st)"
    and f: "renderError st = ''X''" "errorRetry st = 1"
    and s1: "step sample_registry draw_recovers_once ClickRetry st = Some (Inr st1)"
    and k: "length (drawCalls st1) = 3" "drawCalls st1 \<noteq> drawCalls st" "length (drawCalls st) = 2"
    and s2: "step sample_registry draw_recovers_once (Render (sample_inputs\<lparr>width := 640\<rparr>)) st1
          = Some (Inr st2)"
    and k2: "length (drawCalls st2) = 4"
    by (auto split: option.splits sum.splits)
  have ret: "draw_recovers_once (length (drawCalls st)) (last (drawCalls st1)) = Returns []"
    using k(3) by (simp add: draw_recovers_once_def)
  have thr: "draw_recovers_once (length (drawCalls st1)) (last (drawCalls st2))
      = Throws [] (ThrownValue (Some ''X''))"
    using k(1) by (simp add: draw_recovers_once_def)
  have d2: "drawCalls st2 \<noteq> drawCalls st1" using k(1) k2 by auto
  from successful_draw_resets [OF s1 k(2) ret]
  have "renderError st1 = [] \<and> errorRetry st1 = 0 \<and> (\<exists>lg sv cv. mounted st1 = Chart lg sv cv)
      \<and> mounted st2 = ErrorPanel (''Render Error: '' @ ''X'') ''Retry''"
    using s2 d2 thr by blast
  then show ?thesis using r f s1 k(1) s2 by auto
qed

section \<open>A draw that throws\<close>

text \<open>
  C4. A draw that throws an error whose message is the empty string leaves the error
  message empty: the chart stays mounted and no error panel appears. A draw that throws
  \<open>null\<close> makes the catch block itself raise.
\<close>

theorem empty_message_failure_hidden:
  "(\<exists>st'. step sample_registry draw_throws_empty (Render sample_inputs) initial = Some (Inr st')
       \<and> drawCalls st' = [request_of sample_inputs] \<and> renderError st' = []
       \<and> (\<exists>lg sv cv. mounted st' = Chart lg sv cv))
   \<and> step sample_registry draw_throws_null (Render sample_inputs) initial = Some (Inl TypeError)"
proof -
  have h5: "renderError (initial :: nat inst) = []" by (simp add: initial_def)
  have h6: "lastDeps (initial :: nat inst) \<noteq> Some (sample_inputs, [])" by (simp add: initial_def)
  obtain v where r: "TimelineDropsChart sample_registry sample_inputs initial = Inr v"
    using render_registered [OF sample_valid(4)] by blast
  obtain lg sv cv where v: "v = Chart lg sv cv"
    using render_chart [OF sample_valid(1,2) h5 r] by blast
  have t: "draw_throws_empty (length (drawCalls (initial :: nat inst))) (request_of sample_inputs)
      = Throws [] (ThrownValue (Some []))"
    by (simp add: draw_throws_empty_def)
  have n: "draw_throws_null (length (drawCalls (initial :: nat inst))) (request_of sample_inputs)
      = Throws [] ThrownNullish"
    by (simp add: draw_throws_null_def)
  from settle_draw_throws [where drw = draw_throws_empty,
      OF r sample_valid(1,2) h5 sample_valid(3) h6 t]
    settle_draw_throws_nullish [where drw = draw_throws_null,
      OF r sample_valid(1,2) h5 sample_valid(3) h6 n]
  show ?thesis by (simp add: step_def caught_message_def v initial_def)
qed

text \<open>
  What the catch block does establish: the stored message is the thrown value's message
  as it is, or \<open>Unknown error.\<close> when the value has none; and whenever the stored message
  is not empty, the error panel showing it is mounted.
\<close>

theorem caught_message_shown:
  assumes "step reg drw ev st = Some (Inr st')" and "drawCalls st' \<noteq> drawCalls st"
    and "drw (length (drawCalls st)) (last (drawCalls st')) = Throws reported (ThrownValue message)"
  shows "renderError st' = (case message of None \<Rightarrow> ''Unknown error.'' | Some m \<Rightarrow> m)
         \<and> (renderError st' \<noteq> [] \<longrightarrow>
               mounted st' = ErrorPanel (''Render Error: '' @ renderError st')
                               (retry_label (errorRetry st')))"
proof -
  from step_drew [OF assms(1,2)] obtain p st0 where
    s: "settle reg drw p st0 = Some (Inr st')" and k: "drawCalls st0 = drawCalls st" by blast
  from settle_drew_result [OF s] assms(2,3) k
  show ?thesis by (auto simp: caught_message_def split: draw_outcome.splits)
qed

theorem caught_message_shown_witness:
  "\<exists>st'. step sample_registry draw_throws_X (Render sample_inputs) initial = Some (Inr st')
     \<and> renderError st' = ''X'' \<and> mounted st' = ErrorPanel ''Render Error: X'' ''Retry''"
proof -
  have "case step sample_registry draw_throws_X (Render sample_inputs) initial of
          Some (Inr st') \<Rightarrow> length (drawCalls st') = 1 | _ \<Rightarrow> False"
    by code_simp
  then obtain st' where
    s: "step sample_registry draw_throws_X (Render sample_inputs) initial = Some (Inr st')"
    and k: "length (drawCalls st') = 1"
    by (auto split: option.splits sum.splits)
  have d: "drawCalls st' \<noteq> drawCalls (initial :: nat inst)"
    using k by (auto simp: initial_def)
  have t: "draw_throws_X (length (drawCalls (initial :: nat inst))) (last (drawCalls st'))
      = Throws [] (ThrownValue (Some ''X''))"
    by (simp add: draw_throws_X_def)
  from caught_message_shown [OF s d t] have
    e: "renderError st' = ''X''" and
    m: "mounted st' = ErrorPanel (''Render Error: '' @ renderError st') (retry_label (errorRetry st'))"
    by auto
  have "case step sample_registry draw_throws_X (Render sample_inputs) initial of
          Some (Inr st') \<Rightarrow> errorRetry st' = 0 | _ \<Rightarrow> False"
    by code_simp
  then have "errorRetry st' = 0" using s by simp
  then show ?thesis using s e m by (simp add: retry_label_def)
qed

end
